theory Spec2Isabelle
  imports Main "HOL-Library.Word"
begin

unbundle bit_operations_syntax

section \<open>Subscription primitives of \<^verbatim>\<open>src/subscription.ts\<close>\<close>

text \<open>
  The module is single-threaded JavaScript: every method runs to its end, except that a
  method which pushes into its subscriber (\<^verbatim>\<open>mActual.onNext\<close>, \<^verbatim>\<open>mActual.onComplete\<close>)
  hands control to foreign code, and that code may call back into the same subscription
  before the outer method continues. The embedding makes this explicit:

  \<^item> a class is a \<^theory_text>\<open>record\<close> of its fields, a method a function from the state to
    an outcome and the new state;
  \<^item> \<^verbatim>\<open>throw new Error(...)\<close> is an outcome \<open>Inl e\<close>, a normal return \<open>Inr r\<close>; the
    state reached so far is returned in both cases, since a JavaScript exception does
    not roll back assignments;
  \<^item> a field the constructor does not assign is \<open>None\<close> (\<^verbatim>\<open>undefined\<close>), and so is the
    \<^verbatim>\<open>null\<close> that \<^verbatim>\<open>poll()\<close> returns as its empty marker; an element of the stream
    type \<^verbatim>\<open>T\<close> is a value of \<open>'a\<close>, never \<^verbatim>\<open>null\<close>;
  \<^item> a request amount \<^verbatim>\<open>n: number\<close> is an \<open>int\<close>; a fusion mode is the 32-bit integer
    that JavaScript's \<^verbatim>\<open>&\<close> operates on.
\<close>

subsection \<open>Errors, signals and the trace\<close>

text \<open>
  The three \<^verbatim>\<open>Error\<close> messages of class \<^verbatim>\<open>SH\<close>:
  \<open>InvalidDemand n\<close> is \<^verbatim>\<open>"n > 0 required but it was " + n\<close>, \<open>NullSubscription\<close> is
  \<^verbatim>\<open>"s is null"\<close>, \<open>SubscriptionAlreadySet\<close> is \<^verbatim>\<open>"Subscription already set!"\<close>.
  \<open>TypeError\<close> is what JavaScript raises for a method call on \<^verbatim>\<open>undefined\<close>, and
  \<open>Failure msg\<close> is any other error value travelling through \<^verbatim>\<open>onError\<close>.
\<close>

datatype error =
    InvalidDemand int
  | NullSubscription
  | SubscriptionAlreadySet
  | TypeError
  | Failure string

text \<open>The subscription objects a subscriber can be handed in \<^verbatim>\<open>onSubscribe\<close>.\<close>

datatype subscription_ref = EMPTY_INSTANCE | CANCELLED_INSTANCE | Ref nat

text \<open>The four callbacks of \<^verbatim>\<open>rs.Subscriber\<close>.\<close>

datatype 'a signal =
    OnSubscribe subscription_ref
  | OnNext "'a option"
  | OnError error
  | OnComplete

text \<open>What a method returns: nothing, a fusion mode, a polled value, a flag, a size.\<close>

datatype 'a ret =
    RVoid
  | RMode "32 word"
  | RValue "'a option"
  | RBool "bool option"
  | RSize nat

text \<open>
  The fusion constants \<^verbatim>\<open>flow.FC.NONE\<close>, \<^verbatim>\<open>SYNC\<close>, \<^verbatim>\<open>ASYNC\<close> and \<^verbatim>\<open>BOUNDARY\<close> live in
  \<^verbatim>\<open>./flow\<close>, which is not part of the sources at hand; they are a parameter of every
  function that reads them.
\<close>

record FC =
  NONE :: "32 word"
  SYNC :: "32 word"
  ASYNC :: "32 word"
  BOUNDARY :: "32 word"

text \<open>
  Modelled from the spec: \<^verbatim>\<open>flow.FC.unsupported()\<close>, the value that \<^verbatim>\<open>offer\<close> throws in
  \<^verbatim>\<open>ScalarSubscription\<close> and \<^verbatim>\<open>DeferrendScalarSubscription\<close>, is declared in \<^verbatim>\<open>./flow\<close>;
  the spec says that \<^verbatim>\<open>offer\<close> "fails with unsupported operation". No property below
  depends on which error it is.
\<close>

definition FC_unsupported :: error where
  "FC_unsupported = Failure ''unsupported operation''"

subsection \<open>Class \<^verbatim>\<open>SH\<close>\<close>

definition validRequest :: "int \<Rightarrow> error + bool" where
  "validRequest n = (if n \<le> 0 then Inl (InvalidDemand n) else Inr True)"

text \<open>
  \<^verbatim>\<open>validSubscription(current, s)\<close>. A reference that is \<^verbatim>\<open>null\<close> or \<^verbatim>\<open>undefined\<close> is
  \<open>None\<close> (the source compares with \<^verbatim>\<open>== null\<close>, which both satisfy); \<^verbatim>\<open>SH.CANCELLED\<close>
  is \<open>CANCELLED_INSTANCE\<close>. The only effect is the call \<^verbatim>\<open>s.cancel()\<close>: the third
  argument lists the receivers of the \<^verbatim>\<open>cancel()\<close> calls made so far.
\<close>

definition validSubscription ::
  "subscription_ref option \<Rightarrow> subscription_ref option \<Rightarrow> subscription_ref list
    \<Rightarrow> (error + bool) \<times> subscription_ref list" where
  "validSubscription current s cancels =
     (case s of
        None \<Rightarrow> (Inl NullSubscription, cancels)
      | Some incoming \<Rightarrow>
          (case current of
             Some cur \<Rightarrow>
               (let cancels' = cancels @ [incoming]
                in if cur \<noteq> CANCELLED_INSTANCE
                   then (Inl SubscriptionAlreadySet, cancels')
                   else (Inr False, cancels'))
           | None \<Rightarrow> (Inr True, cancels)))"

subsection \<open>Calls, traces and subscribers\<close>

text \<open>
  The methods of \<^verbatim>\<open>flow.QueueSubscription\<close>, which all four subscription classes
  implement, and those of the deferred scalar subscription, which adds \<^verbatim>\<open>complete\<close>.
\<close>

datatype 'a queue_call =
    Request int
  | Cancel
  | RequestFusion "32 word"
  | Offer 'a
  | Poll
  | IsEmpty
  | Size
  | Clear

datatype 'a dss_call = Complete 'a | Queue "'a queue_call"

text \<open>
  The trace of an execution, in program order: a method is entered, a callback of the
  subscriber is entered, a method returns or throws.
\<close>

datatype ('c, 'a) entry =
    Invoked 'c
  | Signal "'a signal"
  | Returned "'a ret"
  | Thrown error

type_synonym ('s, 'c, 'a) world = "'s \<times> ('c, 'a) entry list"

type_synonym ('s, 'c, 'a) outcome = "(error + 'a ret) \<times> ('s, 'c, 'a) world"

text \<open>
  A subscriber is what its callbacks do to the world: nothing is known about
  \<^verbatim>\<open>mActual\<close> but that it is called. \<open>Some e\<close> is a callback that throws \<open>e\<close>.
\<close>

type_synonym ('s, 'c, 'a) subscriber =
  "'a signal \<Rightarrow> ('s, 'c, 'a) world \<Rightarrow> error option \<times> ('s, 'c, 'a) world"

definition emit ::
  "('s, 'c, 'a) subscriber \<Rightarrow> 'a signal \<Rightarrow> ('s, 'c, 'a) world
    \<Rightarrow> error option \<times> ('s, 'c, 'a) world" where
  "emit mActual sg w = mActual sg (fst w, snd w @ [Signal sg])"

text \<open>Statement sequencing: an exception skips the rest of the method body.\<close>

definition and_then ::
  "error option \<times> ('s, 'c, 'a) world \<Rightarrow> (('s, 'c, 'a) world \<Rightarrow> ('s, 'c, 'a) outcome)
    \<Rightarrow> ('s, 'c, 'a) outcome" where
  "and_then r k = (case r of (Some e, w) \<Rightarrow> (Inl e, w) | (None, w) \<Rightarrow> k w)"

definition return_void :: "('s, 'c, 'a) world \<Rightarrow> ('s, 'c, 'a) outcome" where
  "return_void w = (Inr RVoid, w)"

text \<open>JavaScript truthiness of a \<^verbatim>\<open>boolean\<close> field that may be \<^verbatim>\<open>undefined\<close>.\<close>

definition truthy :: "bool option \<Rightarrow> bool" where
  "truthy b = (case b of None \<Rightarrow> False | Some x \<Rightarrow> x)"

text \<open>
  A subscriber that keeps to itself: its callbacks act on a state of its own and never
  call back into the subscription.
\<close>

definition opaque ::
  "('a signal \<Rightarrow> 'x \<Rightarrow> error option \<times> 'x) \<Rightarrow> ('s \<times> 'x, 'c, 'a) subscriber" where
  "opaque f sg w =
     (case f sg (snd (fst w)) of (r, x') \<Rightarrow> (r, ((fst (fst w), x'), snd w)))"

subsection \<open>Class \<^verbatim>\<open>EmptySubscription\<close>\<close>

text \<open>
  The class has no fields. \<^verbatim>\<open>offer\<close> throws \<^verbatim>\<open>new Error("Unsupported in Fusion mode")\<close>,
  which is \<open>Failure\<close> of that message.
\<close>

definition EmptySubscription_request :: "int \<Rightarrow> ('s, 'c, 'a) world \<Rightarrow> ('s, 'c, 'a) outcome" where
  "EmptySubscription_request n w = (Inr RVoid, w)"

definition EmptySubscription_cancel :: "('s, 'c, 'a) world \<Rightarrow> ('s, 'c, 'a) outcome" where
  "EmptySubscription_cancel w = (Inr RVoid, w)"

definition EmptySubscription_requestFusion ::
  "FC \<Rightarrow> 32 word \<Rightarrow> ('s, 'c, 'a) world \<Rightarrow> ('s, 'c, 'a) outcome" where
  "EmptySubscription_requestFusion fc mode w = (Inr (RMode (NONE fc)), w)"

definition EmptySubscription_method ::
  "FC \<Rightarrow> 'a queue_call \<Rightarrow> ('s, 'c, 'a) world \<Rightarrow> ('s, 'c, 'a) outcome" where
  "EmptySubscription_method fc c w =
     (case c of
        Request n \<Rightarrow> EmptySubscription_request n w
      | Cancel \<Rightarrow> EmptySubscription_cancel w
      | RequestFusion mode \<Rightarrow> EmptySubscription_requestFusion fc mode w
      | Offer t \<Rightarrow> (Inl (Failure ''Unsupported in Fusion mode''), w)
      | Poll \<Rightarrow> (Inr (RValue None), w)
      | IsEmpty \<Rightarrow> (Inr (RBool (Some True)), w)
      | Size \<Rightarrow> (Inr (RSize 0), w)
      | Clear \<Rightarrow> (Inr RVoid, w))"

text \<open>The static entry points \<^verbatim>\<open>complete(s)\<close> and \<^verbatim>\<open>error(s, e)\<close>.\<close>

definition EmptySubscription_complete ::
  "('s, 'c, 'a) subscriber \<Rightarrow> ('s, 'c, 'a) world \<Rightarrow> ('s, 'c, 'a) outcome" where
  "EmptySubscription_complete s w =
     and_then (emit s (OnSubscribe EMPTY_INSTANCE) w) (\<lambda>w1.
     and_then (emit s OnComplete w1) return_void)"

definition EmptySubscription_error ::
  "('s, 'c, 'a) subscriber \<Rightarrow> error \<Rightarrow> ('s, 'c, 'a) world \<Rightarrow> ('s, 'c, 'a) outcome" where
  "EmptySubscription_error s e w =
     and_then (emit s (OnSubscribe EMPTY_INSTANCE) w) (\<lambda>w1.
     and_then (emit s (OnError e) w1) return_void)"

subsection \<open>Class \<^verbatim>\<open>ScalarSubscription\<close>\<close>

text \<open>
  The constructor assigns \<^verbatim>\<open>mValue\<close> and \<^verbatim>\<open>mActual\<close> and leaves \<^verbatim>\<open>once\<close> undefined.
  The field \<^verbatim>\<open>mActual\<close> is the subscriber passed to the methods that push, here and in
  the classes below. The field \<^verbatim>\<open>mValue\<close> is \<open>scalar_mValue\<close>, since the deferred
  subscription has a field of the same name, and the methods carry the prefix
  \<open>scalar_\<close>.
\<close>

record 'a ScalarSubscription =
  scalar_mValue :: 'a
  once :: "bool option"

definition ScalarSubscription_new :: "'a \<Rightarrow> 'a ScalarSubscription" where
  "ScalarSubscription_new v = \<lparr>scalar_mValue = v, once = None\<rparr>"

definition scalar_request ::
  "('a ScalarSubscription, 'c, 'a) subscriber \<Rightarrow> int
    \<Rightarrow> ('a ScalarSubscription, 'c, 'a) world \<Rightarrow> ('a ScalarSubscription, 'c, 'a) outcome" where
  "scalar_request mActual n w =
     (case validRequest n of
        Inl e \<Rightarrow> (Inl e, w)
      | Inr ok \<Rightarrow>
          if ok then
            if \<not> truthy (once (fst w)) then
              and_then (emit mActual (OnNext (Some (scalar_mValue (fst w))))
                          ((fst w)\<lparr>once := Some True\<rparr>, snd w)) (\<lambda>w1.
              and_then (emit mActual OnComplete w1) return_void)
            else return_void w
          else return_void w)"

definition scalar_cancel :: "'a ScalarSubscription \<Rightarrow> 'a ScalarSubscription" where
  "scalar_cancel s = s\<lparr>once := Some True\<rparr>"

definition scalar_poll :: "'a ScalarSubscription \<Rightarrow> 'a option \<times> 'a ScalarSubscription" where
  "scalar_poll s =
     (if \<not> truthy (once s) then (Some (scalar_mValue s), s\<lparr>once := Some True\<rparr>)
      else (None, s))"

definition scalar_isEmpty :: "'a ScalarSubscription \<Rightarrow> bool option" where
  "scalar_isEmpty s = once s"

definition scalar_clear :: "'a ScalarSubscription \<Rightarrow> 'a ScalarSubscription" where
  "scalar_clear s = s\<lparr>once := Some True\<rparr>"

definition scalar_size :: "'a ScalarSubscription \<Rightarrow> nat" where
  "scalar_size s = (if truthy (once s) then 0 else 1)"

definition scalar_requestFusion :: "FC \<Rightarrow> 32 word \<Rightarrow> 32 word" where
  "scalar_requestFusion fc mode = (if mode AND SYNC fc \<noteq> 0 then SYNC fc else NONE fc)"

definition scalar_method ::
  "FC \<Rightarrow> ('a ScalarSubscription, 'c, 'a) subscriber \<Rightarrow> 'a queue_call
    \<Rightarrow> ('a ScalarSubscription, 'c, 'a) world \<Rightarrow> ('a ScalarSubscription, 'c, 'a) outcome" where
  "scalar_method fc mActual c w =
     (case c of
        Request n \<Rightarrow> scalar_request mActual n w
      | Cancel \<Rightarrow> (Inr RVoid, (scalar_cancel (fst w), snd w))
      | RequestFusion mode \<Rightarrow> (Inr (RMode (scalar_requestFusion fc mode)), w)
      | Offer t \<Rightarrow> (Inl FC_unsupported, w)
      | Poll \<Rightarrow> (case scalar_poll (fst w) of (r, s') \<Rightarrow> (Inr (RValue r), (s', snd w)))
      | IsEmpty \<Rightarrow> (Inr (RBool (scalar_isEmpty (fst w))), w)
      | Size \<Rightarrow> (Inr (RSize (scalar_size (fst w))), w)
      | Clear \<Rightarrow> (Inr RVoid, (scalar_clear (fst w), snd w)))"

subsection \<open>Class \<^verbatim>\<open>DeferrendScalarSubscription\<close>\<close>

text \<open>
  The methods carry the prefix \<open>dss_\<close>. \<^verbatim>\<open>mValue\<close> is undefined until \<^verbatim>\<open>complete\<close>
  assigns it; \<^verbatim>\<open>request\<close> passes the field to \<^verbatim>\<open>onNext\<close> as it is, which is why a signal
  \<open>OnNext\<close> carries an optional value.
\<close>

datatype DeferredState =
    NO_REQUEST_NO_VALUE
  | HAS_REQUEST_NO_VALUE
  | NO_REQUEST_HAS_VALUE
  | HAS_REQUEST_HAS_VALUE
  | CANCELLED

datatype FusedState = NOT_FUSED | NO_VALUE | HAS_VALUE | COMPLETE

record 'a DeferrendScalarSubscription =
  mValue :: "'a option"
  mState :: DeferredState
  mFused :: FusedState

definition DeferrendScalarSubscription_new :: "'a DeferrendScalarSubscription" where
  "DeferrendScalarSubscription_new =
     \<lparr>mValue = None, mState = NO_REQUEST_NO_VALUE, mFused = NOT_FUSED\<rparr>"

definition dss_complete ::
  "('a DeferrendScalarSubscription, 'c, 'a) subscriber \<Rightarrow> 'a
    \<Rightarrow> ('a DeferrendScalarSubscription, 'c, 'a) world
    \<Rightarrow> ('a DeferrendScalarSubscription, 'c, 'a) outcome" where
  "dss_complete mActual t w =
     (if mFused (fst w) = NO_VALUE then
        and_then (emit mActual (OnNext (Some t))
                    ((fst w)\<lparr>mValue := Some t, mFused := HAS_VALUE\<rparr>, snd w)) (\<lambda>w1.
        and_then (emit mActual OnComplete w1) return_void)
      else
        (let s = mState (fst w) in
         if s = HAS_REQUEST_NO_VALUE then
           and_then (emit mActual (OnNext (Some t))
                       ((fst w)\<lparr>mState := HAS_REQUEST_HAS_VALUE\<rparr>, snd w)) (\<lambda>w1.
           if mState (fst w1) \<noteq> CANCELLED then
             and_then (emit mActual OnComplete w1) return_void
           else return_void w1)
         else if s = NO_REQUEST_NO_VALUE then
           return_void ((fst w)\<lparr>mValue := Some t, mState := NO_REQUEST_HAS_VALUE\<rparr>, snd w)
         else return_void w))"

definition dss_request ::
  "('a DeferrendScalarSubscription, 'c, 'a) subscriber \<Rightarrow> int
    \<Rightarrow> ('a DeferrendScalarSubscription, 'c, 'a) world
    \<Rightarrow> ('a DeferrendScalarSubscription, 'c, 'a) outcome" where
  "dss_request mActual n w =
     (case validRequest n of
        Inl e \<Rightarrow> (Inl e, w)
      | Inr ok \<Rightarrow>
          if ok then
            (let s = mState (fst w) in
             if s = NO_REQUEST_HAS_VALUE then
               and_then (emit mActual (OnNext (mValue (fst w)))
                           ((fst w)\<lparr>mState := HAS_REQUEST_HAS_VALUE\<rparr>, snd w)) (\<lambda>w1.
               if mState (fst w1) \<noteq> CANCELLED then
                 and_then (emit mActual OnComplete w1) return_void
               else return_void w1)
             else if s = NO_REQUEST_NO_VALUE then
               return_void ((fst w)\<lparr>mState := HAS_REQUEST_NO_VALUE\<rparr>, snd w)
             else return_void w)
          else return_void w)"

definition dss_cancel :: "'a DeferrendScalarSubscription \<Rightarrow> 'a DeferrendScalarSubscription" where
  "dss_cancel s = s\<lparr>mState := CANCELLED, mFused := COMPLETE\<rparr>"

definition dss_requestFusion ::
  "FC \<Rightarrow> 32 word \<Rightarrow> 'a DeferrendScalarSubscription
    \<Rightarrow> 32 word \<times> 'a DeferrendScalarSubscription" where
  "dss_requestFusion fc mode s =
     (if mode AND ASYNC fc \<noteq> 0 \<and> mode AND BOUNDARY fc = 0
      then (ASYNC fc, s\<lparr>mFused := NO_VALUE\<rparr>)
      else (NONE fc, s))"

definition dss_poll ::
  "'a DeferrendScalarSubscription \<Rightarrow> 'a option \<times> 'a DeferrendScalarSubscription" where
  "dss_poll s =
     (if mFused s = HAS_VALUE then (mValue s, s\<lparr>mFused := COMPLETE\<rparr>) else (None, s))"

definition dss_isEmpty :: "'a DeferrendScalarSubscription \<Rightarrow> bool" where
  "dss_isEmpty s = (mFused s \<noteq> HAS_VALUE)"

definition dss_size :: "'a DeferrendScalarSubscription \<Rightarrow> nat" where
  "dss_size s = (if dss_isEmpty s then 0 else 1)"

definition dss_clear :: "'a DeferrendScalarSubscription \<Rightarrow> 'a DeferrendScalarSubscription" where
  "dss_clear s = s\<lparr>mFused := COMPLETE\<rparr>"

definition dss_queue_method ::
  "FC \<Rightarrow> ('a DeferrendScalarSubscription, 'c, 'a) subscriber \<Rightarrow> 'a queue_call
    \<Rightarrow> ('a DeferrendScalarSubscription, 'c, 'a) world
    \<Rightarrow> ('a DeferrendScalarSubscription, 'c, 'a) outcome" where
  "dss_queue_method fc mActual c w =
     (case c of
        Request n \<Rightarrow> dss_request mActual n w
      | Cancel \<Rightarrow> (Inr RVoid, (dss_cancel (fst w), snd w))
      | RequestFusion mode \<Rightarrow>
          (case dss_requestFusion fc mode (fst w) of (r, s') \<Rightarrow> (Inr (RMode r), (s', snd w)))
      | Offer t \<Rightarrow> (Inl FC_unsupported, w)
      | Poll \<Rightarrow> (case dss_poll (fst w) of (r, s') \<Rightarrow> (Inr (RValue r), (s', snd w)))
      | IsEmpty \<Rightarrow> (Inr (RBool (Some (dss_isEmpty (fst w)))), w)
      | Size \<Rightarrow> (Inr (RSize (dss_size (fst w))), w)
      | Clear \<Rightarrow> (Inr RVoid, (dss_clear (fst w), snd w)))"

definition dss_method ::
  "FC \<Rightarrow> ('a DeferrendScalarSubscription, 'c, 'a) subscriber \<Rightarrow> 'a dss_call
    \<Rightarrow> ('a DeferrendScalarSubscription, 'c, 'a) world
    \<Rightarrow> ('a DeferrendScalarSubscription, 'c, 'a) outcome" where
  "dss_method fc mActual c w =
     (case c of
        Complete t \<Rightarrow> dss_complete mActual t w
      | Queue q \<Rightarrow> dss_queue_method fc mActual q w)"

subsection \<open>Class \<^verbatim>\<open>SuppressFusionSubscriber\<close>\<close>

text \<open>
  The upstream subscription \<^verbatim>\<open>s\<close> is a foreign object: its \<^verbatim>\<open>request\<close> and \<^verbatim>\<open>cancel\<close>
  act on a state \<open>'h\<close> outside the adapter and may throw; \<open>sub_requestFusion\<close> is the
  mode it would grant if it were asked. The field \<^verbatim>\<open>s\<close> is undefined until
  \<^verbatim>\<open>onSubscribe\<close> assigns it, and a method call on \<^verbatim>\<open>undefined\<close> is a \<open>TypeError\<close>.
  The world of the adapter is its own record paired with the outside state; in its
  trace, \<open>Invoked c\<close> is a call \<open>c\<close> made on the upstream and \<open>Signal sg\<close> a callback
  made on the wrapped subscriber \<^verbatim>\<open>mActual\<close>. The methods carry the prefix \<open>sfs_\<close>, and
  \<^verbatim>\<open>s\<close> is the field \<open>sfs_s\<close>.
\<close>

record 'h Subscription =
  sub_request :: "int \<Rightarrow> 'h \<Rightarrow> error option \<times> 'h"
  sub_cancel :: "'h \<Rightarrow> error option \<times> 'h"
  sub_requestFusion :: "32 word \<Rightarrow> 32 word"

record 'h SuppressFusionSubscriber =
  sfs_s :: "'h Subscription option"

definition SuppressFusionSubscriber_new :: "'h SuppressFusionSubscriber" where
  "SuppressFusionSubscriber_new = \<lparr>sfs_s = None\<rparr>"

definition sfs_onSubscribe ::
  "subscription_ref \<Rightarrow> ('h SuppressFusionSubscriber \<times> 'h, 'c, 'a) subscriber
    \<Rightarrow> 'h Subscription \<Rightarrow> ('h SuppressFusionSubscriber \<times> 'h, 'c, 'a) world
    \<Rightarrow> ('h SuppressFusionSubscriber \<times> 'h, 'c, 'a) outcome" where
  "sfs_onSubscribe this mActual s w =
     and_then (emit mActual (OnSubscribe this)
                 (((fst (fst w))\<lparr>sfs_s := Some s\<rparr>, snd (fst w)), snd w)) return_void"

definition sfs_onNext ::
  "('h SuppressFusionSubscriber \<times> 'h, 'c, 'a) subscriber \<Rightarrow> 'a
    \<Rightarrow> ('h SuppressFusionSubscriber \<times> 'h, 'c, 'a) world
    \<Rightarrow> ('h SuppressFusionSubscriber \<times> 'h, 'c, 'a) outcome" where
  "sfs_onNext mActual t w = and_then (emit mActual (OnNext (Some t)) w) return_void"

definition sfs_onError ::
  "('h SuppressFusionSubscriber \<times> 'h, 'c, 'a) subscriber \<Rightarrow> error
    \<Rightarrow> ('h SuppressFusionSubscriber \<times> 'h, 'c, 'a) world
    \<Rightarrow> ('h SuppressFusionSubscriber \<times> 'h, 'c, 'a) outcome" where
  "sfs_onError mActual e w = and_then (emit mActual (OnError e) w) return_void"

definition sfs_onComplete ::
  "('h SuppressFusionSubscriber \<times> 'h, 'c, 'a) subscriber
    \<Rightarrow> ('h SuppressFusionSubscriber \<times> 'h, 'c, 'a) world
    \<Rightarrow> ('h SuppressFusionSubscriber \<times> 'h, 'c, 'a) outcome" where
  "sfs_onComplete mActual w = and_then (emit mActual OnComplete w) return_void"

definition sfs_request ::
  "int \<Rightarrow> ('h SuppressFusionSubscriber \<times> 'h, 'a queue_call, 'a) world
    \<Rightarrow> ('h SuppressFusionSubscriber \<times> 'h, 'a queue_call, 'a) outcome" where
  "sfs_request n w =
     (case sfs_s (fst (fst w)) of
        None \<Rightarrow> (Inl TypeError, w)
      | Some up \<Rightarrow>
          (case sub_request up n (snd (fst w)) of
             (r, h') \<Rightarrow>
               and_then (r, ((fst (fst w), h'), snd w @ [Invoked (Request n)])) return_void))"

definition sfs_cancel ::
  "('h SuppressFusionSubscriber \<times> 'h, 'a queue_call, 'a) world
    \<Rightarrow> ('h SuppressFusionSubscriber \<times> 'h, 'a queue_call, 'a) outcome" where
  "sfs_cancel w =
     (case sfs_s (fst (fst w)) of
        None \<Rightarrow> (Inl TypeError, w)
      | Some up \<Rightarrow>
          (case sub_cancel up (snd (fst w)) of
             (r, h') \<Rightarrow>
               and_then (r, ((fst (fst w), h'), snd w @ [Invoked Cancel])) return_void))"

definition sfs_requestFusion ::
  "FC \<Rightarrow> 32 word \<Rightarrow> ('h SuppressFusionSubscriber \<times> 'h, 'c, 'a) world
    \<Rightarrow> ('h SuppressFusionSubscriber \<times> 'h, 'c, 'a) outcome" where
  "sfs_requestFusion fc mode w = (Inr (RMode (NONE fc)), w)"

subsection \<open>Running calls against a subscription\<close>

text \<open>
  An execution is a finite tree of calls. \<open>Act c caught ns cs\<close> is the call \<open>c\<close>;
  \<open>ns\<close> are the calls the subscriber makes on the subscription from inside the
  \<^verbatim>\<open>onNext\<close> that \<open>c\<close> triggers, \<open>cs\<close> those it makes from inside the \<^verbatim>\<open>onComplete\<close>
  (both unused when \<open>c\<close> triggers no such callback), each again with the calls nested
  in it. \<open>caught\<close> says whether the caller wraps the call in \<^verbatim>\<open>try/catch\<close>: an error
  thrown by a call that is not caught ends the caller's script, and, when the caller is
  a callback, travels on through the method that invoked the callback.
  A top-level script is the sequence of calls made by producer and consumer.
\<close>

datatype 'c act =
  Act (call_of: 'c) (caught: bool) (in_onNext: "'c act list") (in_onComplete: "'c act list")

fun run_act ::
  "(('s, 'c, 'a) subscriber \<Rightarrow> 'c \<Rightarrow> ('s, 'c, 'a) world \<Rightarrow> ('s, 'c, 'a) outcome)
    \<Rightarrow> 'c act \<Rightarrow> ('s, 'c, 'a) world \<Rightarrow> ('s, 'c, 'a) outcome"
and run_script ::
  "(('s, 'c, 'a) subscriber \<Rightarrow> 'c \<Rightarrow> ('s, 'c, 'a) world \<Rightarrow> ('s, 'c, 'a) outcome)
    \<Rightarrow> 'c act list \<Rightarrow> ('s, 'c, 'a) world \<Rightarrow> error option \<times> ('s, 'c, 'a) world"
where
  "run_act method (Act c k ns cs) w =
     (case method
             (\<lambda>sg w'. case sg of
                         OnNext x \<Rightarrow> run_script method ns w'
                       | OnComplete \<Rightarrow> run_script method cs w'
                       | _ \<Rightarrow> (None, w'))
             c (fst w, snd w @ [Invoked c]) of
        (Inl e, w') \<Rightarrow> (Inl e, (fst w', snd w' @ [Thrown e]))
      | (Inr r, w') \<Rightarrow> (Inr r, (fst w', snd w' @ [Returned r])))"
| "run_script method [] w = (None, w)"
| "run_script method (a # as) w =
     (case run_act method a w of
        (Inl e, w') \<Rightarrow> if caught a then run_script method as w' else (Some e, w')
      | (Inr r, w') \<Rightarrow> run_script method as w')"

text \<open>What the subscriber received, and what the calls returned, in order.\<close>

fun signals :: "('c, 'a) entry list \<Rightarrow> 'a signal list" where
  "signals [] = []"
| "signals (Signal sg # es) = sg # signals es"
| "signals (e # es) = signals es"

subsection \<open>Reading a trace\<close>

text \<open>
  The subscriber of a script, as the methods see it: in \<^verbatim>\<open>onNext\<close> it runs \<open>ns\<close>, in
  \<^verbatim>\<open>onComplete\<close> it runs \<open>cs\<close>. It is the subscriber that \<open>run_act\<close> passes to the
  method. \<open>closing r\<close> is the entry that ends a call with outcome \<open>r\<close>.
\<close>

definition scripted ::
  "(('s, 'c, 'a) subscriber \<Rightarrow> 'c \<Rightarrow> ('s, 'c, 'a) world \<Rightarrow> ('s, 'c, 'a) outcome)
    \<Rightarrow> 'c act list \<Rightarrow> 'c act list \<Rightarrow> ('s, 'c, 'a) subscriber" where
  "scripted m ns cs sg w =
     (case sg of OnNext x \<Rightarrow> run_script m ns w | OnComplete \<Rightarrow> run_script m cs w
      | _ \<Rightarrow> (None, w))"

definition closing :: "error + 'a ret \<Rightarrow> ('c, 'a) entry" where
  "closing r = (case r of Inl e \<Rightarrow> Thrown e | Inr x \<Rightarrow> Returned x)"

text \<open>A subscriber keeps \<open>P\<close> when none of its callbacks can leave \<open>P\<close>.\<close>

definition keeps :: "(('s, 'c, 'a) world \<Rightarrow> bool) \<Rightarrow> ('s, 'c, 'a) subscriber \<Rightarrow> bool" where
  "keeps P sub = (\<forall>sg w. P w \<longrightarrow> P (snd (sub sg w)))"

text \<open>
  How often a value was handed over: pushed by \<^verbatim>\<open>onNext\<close>, or pulled by a \<^verbatim>\<open>poll()\<close>
  that returned something other than the empty marker.
\<close>

fun yields :: "('c, 'a) entry list \<Rightarrow> nat" where
  "yields [] = 0"
| "yields (Signal (OnNext x) # es) = Suc (yields es)"
| "yields (Returned (RValue (Some x)) # es) = Suc (yields es)"
| "yields (e # es) = yields es"

text \<open>How often \<^verbatim>\<open>onComplete\<close> was called.\<close>

definition completes :: "('c, 'a) entry list \<Rightarrow> nat" where
  "completes tr = length (filter (\<lambda>e. e = Signal OnComplete) tr)"

text \<open>
  Whether some \<^verbatim>\<open>onComplete\<close> was called after some \<^verbatim>\<open>cancel()\<close> had been entered,
  on a deferred scalar subscription.
\<close>

fun late_complete :: "('a dss_call, 'a) entry list \<Rightarrow> bool" where
  "late_complete [] = False"
| "late_complete (e # es) =
     ((e = Invoked (Queue Cancel) \<and> Signal OnComplete \<in> set es) \<or> late_complete es)"

text \<open>
  The modes for which \<^verbatim>\<open>DeferrendScalarSubscription.requestFusion\<close> grants fusion, the
  calls that arm the fusion track, and the scripts in which no call, at any depth,
  arms it.
\<close>

definition grants :: "FC \<Rightarrow> 32 word \<Rightarrow> bool" where
  "grants fc mode = (mode AND ASYNC fc \<noteq> 0 \<and> mode AND BOUNDARY fc = 0)"

fun arms :: "FC \<Rightarrow> 'a dss_call \<Rightarrow> bool" where
  "arms fc (Queue (RequestFusion mode)) = grants fc mode"
| "arms fc c = False"

fun unfused_act :: "FC \<Rightarrow> 'a dss_call act \<Rightarrow> bool"
and unfused_script :: "FC \<Rightarrow> 'a dss_call act list \<Rightarrow> bool" where
  "unfused_act fc (Act c k ns cs) =
     (\<not> arms fc c \<and> unfused_script fc ns \<and> unfused_script fc cs)"
| "unfused_script fc [] = True"
| "unfused_script fc (a # as) = (unfused_act fc a \<and> unfused_script fc as)"

text \<open>
  Invariants. A scalar subscription is \<open>delivered\<close> once \<^verbatim>\<open>once\<close> is set: from then
  on neither the number of values handed over nor the signals change. A deferred scalar
  subscription whose fusion track is not armed is \<open>settled\<close> once its state is
  has-request/has-value or cancelled: from then on it makes no callback.
\<close>

definition delivered ::
  "nat \<Rightarrow> 'a signal list \<Rightarrow> ('a ScalarSubscription, 'c, 'a) world \<Rightarrow> bool" where
  "delivered k sgs w =
     (once (fst w) = Some True \<and> yields (snd w) = k \<and> signals (snd w) = sgs)"

definition scalar_inv :: "('a ScalarSubscription, 'c, 'a) world \<Rightarrow> bool" where
  "scalar_inv w =
     (yields (snd w) \<le> 1
      \<and> (0 < yields (snd w) \<longrightarrow> once (fst w) = Some True)
      \<and> (once (fst w) = Some True \<or> once (fst w) = None))"

definition settled ::
  "nat \<Rightarrow> ('a DeferrendScalarSubscription, 'a dss_call, 'a) world \<Rightarrow> bool" where
  "settled k w =
     (mFused (fst w) \<noteq> NO_VALUE
      \<and> (mState (fst w) = HAS_REQUEST_HAS_VALUE \<or> mState (fst w) = CANCELLED)
      \<and> completes (snd w) = k
      \<and> \<not> late_complete (snd w)
      \<and> (Invoked (Queue Cancel) \<in> set (snd w) \<longrightarrow> mState (fst w) = CANCELLED))"

definition dss_inv :: "('a DeferrendScalarSubscription, 'a dss_call, 'a) world \<Rightarrow> bool" where
  "dss_inv w =
     (mFused (fst w) \<noteq> NO_VALUE
      \<and> completes (snd w) \<le> 1
      \<and> (0 < completes (snd w) \<longrightarrow>
           mState (fst w) = HAS_REQUEST_HAS_VALUE \<or> mState (fst w) = CANCELLED)
      \<and> \<not> late_complete (snd w)
      \<and> (Invoked (Queue Cancel) \<in> set (snd w) \<longrightarrow> mState (fst w) = CANCELLED))"

text \<open>
  An instance of the fusion constants to evaluate with, one bit per flag; the theorems
  below hold for every \<open>fc\<close>.
\<close>

definition FC_bits :: FC where
  "FC_bits = \<lparr>NONE = 0, SYNC = 1, ASYNC = 2, BOUNDARY = 4\<rparr>"

text \<open>A subscriber whose callbacks do nothing.\<close>

definition silent :: "('s, 'c, 'a) subscriber" where
  "silent sg w = (None, w)"

text \<open>A subscriber that counts the callbacks it gets and never throws.\<close>

definition counting :: "'a signal \<Rightarrow> nat \<Rightarrow> error option \<times> nat" where
  "counting sg k = (None, Suc k)"

text \<open>An upstream that counts its calls, validates nothing and would grant any mode.\<close>

definition lenient_upstream :: "nat Subscription" where
  "lenient_upstream =
     \<lparr>sub_request = (\<lambda>n h. (None, Suc h)), sub_cancel = (\<lambda>h. (None, Suc h)),
      sub_requestFusion = (\<lambda>mode. mode)\<rparr>"

section \<open>Properties\<close>

subsection \<open>\<^verbatim>\<open>SH.validSubscription\<close>\<close>

text \<open>
  Claim C7. With an incoming subscription present, \<^verbatim>\<open>validSubscription\<close> is a trichotomy
  on \<open>current\<close>: the cancelled sentinel gives \<open>false\<close> after cancelling the incoming
  subscription, without failing; any other subscription (the empty singleton or any
  object) cancels the incoming one and fails with "Subscription already set!"; an
  absent \<open>current\<close> gives \<open>true\<close> and cancels nothing. With the incoming subscription
  absent the call fails with "s is null", whatever \<open>current\<close> is, and cancels nothing.
\<close>

theorem validSubscription_trichotomy:
  "validSubscription (Some CANCELLED_INSTANCE) (Some incoming) cancels
     = (Inr False, cancels @ [incoming])
   \<and> validSubscription (Some EMPTY_INSTANCE) (Some incoming) cancels
     = (Inl SubscriptionAlreadySet, cancels @ [incoming])
   \<and> validSubscription (Some (Ref r)) (Some incoming) cancels
     = (Inl SubscriptionAlreadySet, cancels @ [incoming])
   \<and> validSubscription None (Some incoming) cancels = (Inr True, cancels)
   \<and> validSubscription current None cancels = (Inl NullSubscription, cancels)"
  by (simp add: validSubscription_def)

subsection \<open>\<^verbatim>\<open>EmptySubscription\<close>\<close>

text \<open>
  Claim C9. \<^verbatim>\<open>EmptySubscription.complete(s)\<close> calls \<^verbatim>\<open>s.onSubscribe\<close> with the singleton
  and then \<^verbatim>\<open>s.onComplete()\<close>, and nothing else; \<^verbatim>\<open>EmptySubscription.error(s, e)\<close> calls
  \<^verbatim>\<open>s.onSubscribe\<close> with the singleton and then \<^verbatim>\<open>s.onError(e)\<close>. The subscriber is any
  one whose two callbacks return normally: the trace grows by exactly these two signals.
\<close>

theorem EmptySubscription_complete_error_signals:
  "(f (OnSubscribe EMPTY_INSTANCE) x = (None, x1) \<longrightarrow> f OnComplete x1 = (None, x2) \<longrightarrow>
      EmptySubscription_complete (opaque f) ((s, x), tr)
        = (Inr RVoid, ((s, x2), tr @ [Signal (OnSubscribe EMPTY_INSTANCE), Signal OnComplete])))
   \<and> (f (OnSubscribe EMPTY_INSTANCE) x = (None, x1) \<longrightarrow> f (OnError e) x1 = (None, x3) \<longrightarrow>
      EmptySubscription_error (opaque f) e ((s, x), tr)
        = (Inr RVoid, ((s, x3), tr @ [Signal (OnSubscribe EMPTY_INSTANCE), Signal (OnError e)])))"
  by (simp add: EmptySubscription_complete_def EmptySubscription_error_def emit_def
      and_then_def opaque_def return_void_def)

theorem EmptySubscription_complete_error_signals_witness:
  "counting (OnSubscribe EMPTY_INSTANCE :: nat signal) 0 = (None, 1)
   \<and> counting (OnComplete :: nat signal) 1 = (None, 2)
   \<and> counting (OnError (Failure ''boom'') :: nat signal) 1 = (None, 2)
   \<and> EmptySubscription_complete (opaque counting) (((), 0), [] :: (nat queue_call, nat) entry list)
        = (Inr RVoid, (((), 2), [Signal (OnSubscribe EMPTY_INSTANCE), Signal OnComplete]))
   \<and> EmptySubscription_error (opaque counting) (Failure ''boom'')
        (((), 0), [] :: (nat queue_call, nat) entry list)
        = (Inr RVoid,
           (((), 2), [Signal (OnSubscribe EMPTY_INSTANCE), Signal (OnError (Failure ''boom''))]))"
  using EmptySubscription_complete_error_signals
    [of "counting :: nat signal \<Rightarrow> nat \<Rightarrow> error option \<times> nat" 0 1 2 "()"
        "[] :: (nat queue_call, nat) entry list" "Failure ''boom''" 2]
  by (simp add: counting_def)

subsection \<open>\<^verbatim>\<open>DeferrendScalarSubscription.requestFusion\<close>\<close>

text \<open>
  Claim C5. \<^verbatim>\<open>requestFusion(mode)\<close> returns \<^verbatim>\<open>FC.ASYNC\<close> and arms the fusion track when
  \<open>mode\<close> has the async bit and not the boundary bit; in every other case it returns
  \<^verbatim>\<open>FC.NONE\<close> and leaves the whole state, so also the fusion track, as it was. When
  the two constants differ, the call returns \<^verbatim>\<open>FC.ASYNC\<close> exactly in the first case.
\<close>

theorem dss_requestFusion_grants_iff:
  "(mode AND ASYNC fc \<noteq> 0 \<and> mode AND BOUNDARY fc = 0 \<longrightarrow>
      fst (dss_requestFusion fc mode s) = ASYNC fc
      \<and> mFused (snd (dss_requestFusion fc mode s)) = NO_VALUE)
   \<and> (\<not> (mode AND ASYNC fc \<noteq> 0 \<and> mode AND BOUNDARY fc = 0) \<longrightarrow>
      dss_requestFusion fc mode s = (NONE fc, s))
   \<and> (ASYNC fc \<noteq> NONE fc \<longrightarrow>
      (fst (dss_requestFusion fc mode s) = ASYNC fc
        \<longleftrightarrow> mode AND ASYNC fc \<noteq> 0 \<and> mode AND BOUNDARY fc = 0))"
  by (simp add: dss_requestFusion_def)

theorem dss_requestFusion_grants_iff_witness:
  "(2 :: 32 word) AND ASYNC FC_bits \<noteq> 0 \<and> (2 :: 32 word) AND BOUNDARY FC_bits = 0
   \<and> \<not> ((6 :: 32 word) AND ASYNC FC_bits \<noteq> 0 \<and> (6 :: 32 word) AND BOUNDARY FC_bits = 0)
   \<and> ASYNC FC_bits \<noteq> NONE FC_bits
   \<and> dss_requestFusion FC_bits 2 (DeferrendScalarSubscription_new :: nat DeferrendScalarSubscription)
        = (2, \<lparr>mValue = None, mState = NO_REQUEST_NO_VALUE, mFused = NO_VALUE\<rparr>)
   \<and> dss_requestFusion FC_bits 6 (DeferrendScalarSubscription_new :: nat DeferrendScalarSubscription)
        = (0, DeferrendScalarSubscription_new)"
  using dss_requestFusion_grants_iff [of 2 FC_bits "DeferrendScalarSubscription_new :: nat DeferrendScalarSubscription"]
    dss_requestFusion_grants_iff [of 6 FC_bits "DeferrendScalarSubscription_new :: nat DeferrendScalarSubscription"]
  by (simp add: FC_bits_def dss_requestFusion_def DeferrendScalarSubscription_new_def)

subsection \<open>\<^verbatim>\<open>SuppressFusionSubscriber\<close>\<close>

text \<open>
  Claim C8. \<^verbatim>\<open>requestFusion(mode)\<close> on the adapter returns \<^verbatim>\<open>FC.NONE\<close> for every mode and
  every upstream, whatever that upstream would grant, and touches nothing. Once
  \<^verbatim>\<open>onSubscribe\<close> has stored the upstream, \<^verbatim>\<open>request(n)\<close> on the adapter is one call
  \<^verbatim>\<open>request(n)\<close> on that upstream and \<^verbatim>\<open>cancel()\<close> one call \<^verbatim>\<open>cancel()\<close> on it: the outside
  state is what that single call leaves, the trace grows by that single call, and the
  adapter returns or throws as the upstream did.
\<close>

theorem sfs_forwards_and_denies_fusion:
  "sfs_requestFusion fc mode w = (Inr (RMode (NONE fc)), w)
   \<and> (sfs_s a = Some up \<longrightarrow>
        snd (sfs_request n ((a, h), tr))
          = ((a, snd (sub_request up n h)), tr @ [Invoked (Request n)])
        \<and> fst (sfs_request n ((a, h), tr))
          = (case fst (sub_request up n h) of Some e \<Rightarrow> Inl e | None \<Rightarrow> Inr RVoid)
        \<and> snd (sfs_cancel ((a, h), tr)) = ((a, snd (sub_cancel up h)), tr @ [Invoked Cancel])
        \<and> fst (sfs_cancel ((a, h), tr))
          = (case fst (sub_cancel up h) of Some e \<Rightarrow> Inl e | None \<Rightarrow> Inr RVoid))
   \<and> sfs_s (fst (fst (snd (sfs_onSubscribe this (opaque f) up ((a, h), tr'))))) = Some up"
  by (simp add: sfs_requestFusion_def sfs_request_def sfs_cancel_def sfs_onSubscribe_def
      emit_def opaque_def and_then_def return_void_def split: prod.splits option.splits)

theorem sfs_forwards_and_denies_fusion_witness:
  "sfs_s \<lparr>sfs_s = Some lenient_upstream\<rparr> = Some lenient_upstream
   \<and> sub_requestFusion lenient_upstream (ASYNC FC_bits) = ASYNC FC_bits
   \<and> sfs_requestFusion FC_bits (ASYNC FC_bits)
        ((\<lparr>sfs_s = Some lenient_upstream\<rparr>, 0), [] :: (nat queue_call, nat) entry list)
        = (Inr (RMode 0), ((\<lparr>sfs_s = Some lenient_upstream\<rparr>, 0), []))
   \<and> sfs_request 5 ((\<lparr>sfs_s = Some lenient_upstream\<rparr>, 0), [] :: (nat queue_call, nat) entry list)
        = (Inr RVoid, ((\<lparr>sfs_s = Some lenient_upstream\<rparr>, 1), [Invoked (Request 5)]))
   \<and> sfs_cancel ((\<lparr>sfs_s = Some lenient_upstream\<rparr>, 0), [] :: (nat queue_call, nat) entry list)
        = (Inr RVoid, ((\<lparr>sfs_s = Some lenient_upstream\<rparr>, 1), [Invoked Cancel]))"
  using sfs_forwards_and_denies_fusion
    [of FC_bits "ASYNC FC_bits"
        "((\<lparr>sfs_s = Some lenient_upstream\<rparr>, 0), [] :: (nat queue_call, nat) entry list)"
        "\<lparr>sfs_s = Some lenient_upstream\<rparr>" lenient_upstream 5 0
        "[] :: (nat queue_call, nat) entry list" "Ref 0"
        "counting :: nat signal \<Rightarrow> nat \<Rightarrow> error option \<times> nat"
        "[] :: (nat queue_call, nat) entry list"]
  by (simp add: FC_bits_def lenient_upstream_def sfs_request_def sfs_cancel_def
      and_then_def return_void_def)

subsection \<open>Non-positive demand\<close>

text \<open>
  Claim C4 says that \<^verbatim>\<open>request(n)\<close> with \<open>n \<le> 0\<close> fails with the invalid-demand error
  on every subscription of the module. \<^verbatim>\<open>EmptySubscription.request\<close> has an empty body
  ("deliberately ignored"): \<^verbatim>\<open>request(0)\<close> returns normally.
\<close>

theorem EmptySubscription_request_zero_returns:
  "fst (EmptySubscription_request 0 ((), [] :: (nat queue_call, nat) entry list)) = Inr RVoid"
  by (simp add: EmptySubscription_request_def)

text \<open>
  Claim C4, amended. For every \<open>n \<le> 0\<close>, \<^verbatim>\<open>request(n)\<close> fails with the invalid-demand
  error on the scalar subscription and on the deferred scalar subscription, in every
  state, changing nothing and calling nothing. The empty subscription ignores
  \<^verbatim>\<open>request(m)\<close> and returns normally for every \<open>m\<close>, positive or not. The
  fusion-suppressing adapter validates nothing itself: for every \<open>m\<close> it forwards
  \<^verbatim>\<open>request(m)\<close> to the stored upstream and fails exactly when, and with the error that,
  the upstream's \<^verbatim>\<open>request\<close> does.
\<close>

theorem request_nonpositive_demand:
  "(n \<le> 0 \<longrightarrow>
      scalar_request mActual n w = (Inl (InvalidDemand n), w)
      \<and> dss_request mActual' n w' = (Inl (InvalidDemand n), w'))
   \<and> EmptySubscription_request m w'' = (Inr RVoid, w'')
   \<and> (sfs_s a = Some up \<longrightarrow>
        fst (sfs_request m ((a, h), tr))
          = (case fst (sub_request up m h) of Some e \<Rightarrow> Inl e | None \<Rightarrow> Inr RVoid))"
  by (simp add: scalar_request_def dss_request_def validRequest_def EmptySubscription_request_def
      sfs_request_def and_then_def return_void_def split: prod.splits option.splits)

theorem request_nonpositive_demand_witness:
  "(-3 :: int) \<le> 0
   \<and> scalar_request silent (-3)
        (ScalarSubscription_new (7 :: nat), [] :: (nat queue_call, nat) entry list)
        = (Inl (InvalidDemand (-3)), (ScalarSubscription_new 7, []))
   \<and> dss_request silent (-3)
        (DeferrendScalarSubscription_new, [] :: (nat dss_call, nat) entry list)
        = (Inl (InvalidDemand (-3)), (DeferrendScalarSubscription_new, []))
   \<and> EmptySubscription_request (-3) ((), [] :: (nat queue_call, nat) entry list)
        = (Inr RVoid, ((), []))
   \<and> EmptySubscription_request 5 ((), [] :: (nat queue_call, nat) entry list)
        = (Inr RVoid, ((), []))
   \<and> sfs_s \<lparr>sfs_s = Some lenient_upstream\<rparr> = Some lenient_upstream
   \<and> fst (sfs_request (-3)
        ((\<lparr>sfs_s = Some lenient_upstream\<rparr>, 0), [] :: (nat queue_call, nat) entry list))
        = Inr RVoid"
  using request_nonpositive_demand
    [of "-3" silent
        "(ScalarSubscription_new (7 :: nat), [] :: (nat queue_call, nat) entry list)"
        silent
        "(DeferrendScalarSubscription_new, [] :: (nat dss_call, nat) entry list)"
        "-3" "((), [] :: (nat queue_call, nat) entry list)"
        "\<lparr>sfs_s = Some lenient_upstream\<rparr>" lenient_upstream 0
        "[] :: (nat queue_call, nat) entry list"]
    request_nonpositive_demand
    [of "-3" silent
        "(ScalarSubscription_new (7 :: nat), [] :: (nat queue_call, nat) entry list)"
        silent
        "(DeferrendScalarSubscription_new, [] :: (nat dss_call, nat) entry list)"
        5 "((), [] :: (nat queue_call, nat) entry list)"
        "\<lparr>sfs_s = Some lenient_upstream\<rparr>" lenient_upstream 0
        "[] :: (nat queue_call, nat) entry list"]
  by (simp add: lenient_upstream_def)

subsection \<open>Running scripts\<close>

lemmas dss_unfold = dss_method_def dss_queue_method_def dss_complete_def dss_request_def
  dss_cancel_def dss_requestFusion_def dss_poll_def dss_isEmpty_def dss_size_def dss_clear_def
  validRequest_def emit_def and_then_def return_void_def DeferrendScalarSubscription_new_def

lemmas scalar_unfold = scalar_method_def scalar_request_def scalar_cancel_def scalar_poll_def
  scalar_isEmpty_def scalar_clear_def scalar_size_def scalar_requestFusion_def validRequest_def
  emit_def and_then_def return_void_def truthy_def ScalarSubscription_new_def

lemma yields_append: "yields (xs @ ys) = yields xs + yields ys"
  by (induction xs rule: yields.induct) simp_all

lemma signals_append: "signals (xs @ ys) = signals xs @ signals ys"
  by (induction xs rule: signals.induct) simp_all

lemma completes_append: "completes (xs @ ys) = completes xs + completes ys"
  by (simp add: completes_def)

lemma completes_Cons:
  "completes (e # es) = (if e = Signal OnComplete then Suc (completes es) else completes es)"
  by (simp add: completes_def)

lemma completes_Nil: "completes [] = 0"
  by (simp add: completes_def)

lemma late_complete_append:
  "late_complete (xs @ ys) =
     (late_complete xs \<or> late_complete ys
      \<or> (Invoked (Queue Cancel) \<in> set xs \<and> Signal OnComplete \<in> set ys))"
  by (induction xs) auto

lemmas trace_simps = completes_append completes_Cons completes_Nil late_complete_append

lemma fst_and_then:
  "fst (and_then r k) = (case fst r of Some e \<Rightarrow> Inl e | None \<Rightarrow> fst (k (snd r)))"
  by (cases r) (simp add: and_then_def split: option.splits)

lemma snd_and_then:
  "snd (and_then r k) = (case fst r of Some e \<Rightarrow> snd r | None \<Rightarrow> snd (k (snd r)))"
  by (cases r) (simp add: and_then_def split: option.splits)

lemma run_script_append:
  "run_script m (xs @ ys) w =
     (case run_script m xs w of (None, w') \<Rightarrow> run_script m ys w' | (Some e, w') \<Rightarrow> (Some e, w'))"
  by (induction xs arbitrary: w) (auto split: prod.splits sum.splits option.splits)

lemma snd_run_script_Cons:
  "snd (run_script m (a # as) w) =
     (if (\<exists>e. fst (run_act m a w) = Inl e) \<and> \<not> caught a then snd (run_act m a w)
      else snd (run_script m as (snd (run_act m a w))))"
  by (cases "run_act m a w") (auto split: sum.splits)

lemma run_act_scripted:
  "run_act m (Act c k ns cs) w =
     (fst (m (scripted m ns cs) c (fst w, snd w @ [Invoked c])),
      (fst (snd (m (scripted m ns cs) c (fst w, snd w @ [Invoked c]))),
       snd (snd (m (scripted m ns cs) c (fst w, snd w @ [Invoked c])))
         @ [closing (fst (m (scripted m ns cs) c (fst w, snd w @ [Invoked c])))]))"
proof -
  have "scripted m ns cs = (\<lambda>sg w'. case sg of OnNext x \<Rightarrow> run_script m ns w'
                       | OnComplete \<Rightarrow> run_script m cs w' | _ \<Rightarrow> (None, w'))"
    by (intro ext) (simp add: scripted_def)
  then show ?thesis
    by (simp add: closing_def split: prod.splits sum.splits)
qed

lemma script_keeps:
  assumes "\<And>as w. P w \<Longrightarrow> P (snd (run_script m as w))"
  shows "keeps P (scripted m ns cs)"
  unfolding keeps_def scripted_def using assms by (auto split: signal.splits)

lemma script_preserves:
  assumes "\<And>a w. P w \<Longrightarrow> P (snd (run_act m a w))"
  shows "P w \<Longrightarrow> P (snd (run_script m as w))"
proof (induction as arbitrary: w)
  case Nil
  then show ?case by simp
next
  case (Cons a as)
  from assms [OF Cons.prems, of a] Cons.IH show ?case
    by (simp only: snd_run_script_Cons split: if_splits) simp
qed

lemma polls_empty:
  "mFused s \<noteq> HAS_VALUE \<Longrightarrow>
   run_script (dss_method fc) (replicate j (Act (Queue Poll) k [] [])) (s, tr)
     = (None, (s, tr @ concat (replicate j [Invoked (Queue Poll), Returned (RValue None)])))"
  by (induction j arbitrary: tr) (simp_all add: dss_unfold)


subsection \<open>\<^verbatim>\<open>ScalarSubscription\<close>: the value is handed over at most once\<close>

lemma scalar_request_delivered:
  "once (fst w) = Some True \<Longrightarrow>
     scalar_request sub n w = (if n \<le> 0 then Inl (InvalidDemand n) else Inr RVoid, w)"
  by (simp add: scalar_request_def validRequest_def truthy_def return_void_def)

lemma scalar_method_delivered:
  assumes "delivered k sgs w"
  shows "delivered k sgs (snd (run_act (scalar_method fc) a w))"
proof (cases a)
  case (Act c k' ns cs)
  show ?thesis using assms unfolding Act run_act_scripted
    by (cases c)
      (simp_all add: scalar_request_delivered scalar_method_def delivered_def yields_append
        signals_append closing_def scalar_cancel_def scalar_poll_def scalar_clear_def truthy_def)
qed

lemma scalar_script_delivered:
  "delivered k sgs w \<Longrightarrow> delivered k sgs (snd (run_script (scalar_method fc) as w))"
  using scalar_method_delivered by (rule script_preserves)

lemma delivered_inv: "delivered k sgs w \<Longrightarrow> k \<le> 1 \<Longrightarrow> scalar_inv w"
  by (simp add: delivered_def scalar_inv_def)

lemma scalar_request_inv:
  assumes sub: "\<And>k sgs. keeps (delivered k sgs) sub" and inv: "scalar_inv w"
  shows "scalar_inv (snd (scalar_request sub n w))"
proof (cases "0 < n \<and> once (fst w) = None")
  case True
  define w1 where "w1 = ((fst w)\<lparr>once := Some True\<rparr>, snd w @ [Signal (OnNext (Some (scalar_mValue (fst w))))])"
  define w2 where "w2 = snd (sub (OnNext (Some (scalar_mValue (fst w)))) w1)"
  define w3 where "w3 = snd (sub OnComplete (fst w2, snd w2 @ [Signal OnComplete]))"
  have y0: "yields (snd w) = 0" using inv True by (auto simp add: scalar_inv_def)
  have d1: "delivered 1 (signals (snd w1)) w1"
    using y0 by (simp add: w1_def delivered_def yields_append)
  have d2: "delivered 1 (signals (snd w1)) w2"
    using sub d1 unfolding keeps_def w2_def by blast
  have "delivered 1 (signals (snd w1) @ [OnComplete]) (fst w2, snd w2 @ [Signal OnComplete])"
    using d2 by (simp add: delivered_def yields_append signals_append)
  then have d3: "delivered 1 (signals (snd w1) @ [OnComplete]) w3"
    using sub unfolding keeps_def w3_def by blast
  have "snd (scalar_request sub n w) = w2 \<or> snd (scalar_request sub n w) = w3"
    using True
    by (simp add: scalar_request_def validRequest_def truthy_def emit_def snd_and_then
        return_void_def w1_def w2_def w3_def split: option.splits)
  with d2 d3 show ?thesis by (auto intro: delivered_inv)
next
  case False
  with inv have "snd (scalar_request sub n w) = w"
    by (auto simp add: scalar_request_def validRequest_def truthy_def return_void_def scalar_inv_def)
  with inv show ?thesis by simp
qed

lemma scalar_request_void: "fst (scalar_request sub n w) = Inr x \<Longrightarrow> x = RVoid"
  by (auto simp add: scalar_request_def validRequest_def fst_and_then return_void_def
      split: if_splits option.splits)

lemma scalar_act_inv:
  assumes "scalar_inv w"
  shows "scalar_inv (snd (run_act (scalar_method fc) a w))"
proof (cases a)
  case (Act c k ns cs)
  have keeps: "\<And>k sgs. keeps (delivered k sgs) (scripted (scalar_method fc) ns cs)"
    by (rule script_keeps) (rule scalar_script_delivered)
  have inv0: "scalar_inv (fst w, snd w @ [Invoked c])"
    using assms by (simp add: scalar_inv_def yields_append)
  show ?thesis
  proof (cases c)
    case (Request n)
    have "scalar_inv (snd (scalar_request (scripted (scalar_method fc) ns cs) n
            (fst w, snd w @ [Invoked c])))"
      using keeps inv0 by (rule scalar_request_inv)
    then show ?thesis unfolding Act run_act_scripted Request
      by (auto simp add: scalar_method_def scalar_inv_def yields_append closing_def
          split: sum.splits dest!: scalar_request_void)
  qed (use inv0 in \<open>auto simp add: Act run_act_scripted scalar_method_def scalar_inv_def
        yields_append closing_def scalar_cancel_def scalar_poll_def scalar_clear_def truthy_def\<close>)
qed

lemma scalar_script_inv:
  "scalar_inv w \<Longrightarrow> scalar_inv (snd (run_script (scalar_method fc) as w))"
  using scalar_act_inv by (rule script_preserves)


subsection \<open>\<^verbatim>\<open>DeferrendScalarSubscription\<close> on the ordinary track\<close>

lemma settled_inv: "settled k w \<Longrightarrow> k \<le> 1 \<Longrightarrow> dss_inv w"
  by (auto simp add: settled_def dss_inv_def)

lemma dss_complete_settled:
  "mFused (fst w) \<noteq> NO_VALUE \<Longrightarrow>
   mState (fst w) = HAS_REQUEST_HAS_VALUE \<or> mState (fst w) = CANCELLED \<Longrightarrow>
     dss_complete sub t w = (Inr RVoid, w)"
  by (auto simp add: dss_complete_def return_void_def)

lemma dss_request_settled:
  "mState (fst w) = HAS_REQUEST_HAS_VALUE \<or> mState (fst w) = CANCELLED \<Longrightarrow>
     dss_request sub n w = (if n \<le> 0 then Inl (InvalidDemand n) else Inr RVoid, w)"
  by (auto simp add: dss_request_def validRequest_def return_void_def)

lemma settled_invoked:
  "settled k w \<Longrightarrow> c \<noteq> Queue Cancel \<Longrightarrow> settled k (fst w, snd w @ [Invoked c])"
  by (simp add: settled_def trace_simps)

lemma settled_closing:
  "settled k w \<Longrightarrow> settled k (fst w, snd w @ [closing r])"
  by (simp add: settled_def trace_simps closing_def
      split: sum.splits)

lemma dss_act_settled:
  assumes "settled k w" and "unfused_act fc a"
  shows "settled k (snd (run_act (dss_method fc) a w))"
proof (cases a)
  case (Act c k' ns cs)
  show ?thesis
  proof (cases "c = Queue Cancel")
    case True
    then show ?thesis using assms(1) unfolding Act run_act_scripted
      by (simp add: dss_method_def dss_queue_method_def dss_cancel_def settled_def
          trace_simps closing_def)
  next
    case False
    from settled_invoked [OF assms(1) False]
    have s0: "settled k (fst w, snd w @ [Invoked c])" .
    from assms(1) have st: "mFused (fst w) \<noteq> NO_VALUE"
      "mState (fst w) = HAS_REQUEST_HAS_VALUE \<or> mState (fst w) = CANCELLED"
      by (simp_all add: settled_def)
    have "snd (dss_method fc (scripted (dss_method fc) ns cs) c (fst w, snd w @ [Invoked c]))
            = (fst w, snd w @ [Invoked c])
          \<or> (\<exists>s'. snd (dss_method fc (scripted (dss_method fc) ns cs) c (fst w, snd w @ [Invoked c]))
            = (s', snd w @ [Invoked c]) \<and> mState s' = mState (fst w) \<and> mFused s' = COMPLETE)"
    proof (cases c)
      case (Complete t)
      then show ?thesis using st by (simp add: dss_method_def dss_complete_settled)
    next
      case (Queue q)
      show ?thesis using assms(2) False st unfolding Queue Act
        by (cases q)
          (auto simp add: dss_method_def dss_queue_method_def dss_request_settled
            dss_requestFusion_def dss_poll_def dss_clear_def grants_def)
    qed
    then have "settled k (snd (dss_method fc (scripted (dss_method fc) ns cs) c (fst w, snd w @ [Invoked c])))"
      using s0 by (auto simp add: settled_def)
    from settled_closing [OF this] show ?thesis unfolding Act run_act_scripted by simp
  qed
qed

lemma dss_script_settled:
  "unfused_script fc as \<Longrightarrow> settled k w \<Longrightarrow> settled k (snd (run_script (dss_method fc) as w))"
proof (induction as arbitrary: w)
  case Nil
  then show ?case by simp
next
  case (Cons a as)
  from Cons.prems have "settled k (snd (run_act (dss_method fc) a w))"
    by (simp add: dss_act_settled)
  with Cons.IH Cons.prems(1) show ?case
    by (simp only: snd_run_script_Cons split: if_splits) simp
qed

lemma dss_push_inv:
  assumes sub: "\<And>k. keeps (settled k) sub"
    and fresh: "mFused s \<noteq> NO_VALUE" "completes tr = 0" "\<not> late_complete tr"
      "Invoked (Queue Cancel) \<notin> set tr"
  shows "dss_inv (snd (
     and_then (emit sub (OnNext x) (s\<lparr>mState := HAS_REQUEST_HAS_VALUE\<rparr>, tr)) (\<lambda>w1.
       if mState (fst w1) \<noteq> CANCELLED then and_then (emit sub OnComplete w1) return_void
       else return_void w1)))"
proof -
  define w1 where "w1 = (s\<lparr>mState := HAS_REQUEST_HAS_VALUE\<rparr>, tr @ [Signal (OnNext x)])"
  define w2 where "w2 = snd (sub (OnNext x) w1)"
  define w3 where "w3 = snd (sub OnComplete (fst w2, snd w2 @ [Signal OnComplete]))"
  have s1: "settled 0 w1"
    using fresh by (simp add: w1_def settled_def trace_simps)
  have s2: "settled 0 w2"
    using sub s1 unfolding keeps_def w2_def by blast
  have "mState (fst w2) \<noteq> CANCELLED \<Longrightarrow> settled 1 (fst w2, snd w2 @ [Signal OnComplete])"
    using s2 by (auto simp add: settled_def trace_simps)
  then have s3: "mState (fst w2) \<noteq> CANCELLED \<Longrightarrow> settled 1 w3"
    using sub unfolding keeps_def w3_def by blast
  have "snd (and_then (emit sub (OnNext x) (s\<lparr>mState := HAS_REQUEST_HAS_VALUE\<rparr>, tr)) (\<lambda>w1.
       if mState (fst w1) \<noteq> CANCELLED then and_then (emit sub OnComplete w1) return_void
       else return_void w1)) = (if fst (sub (OnNext x) w1) = None \<and> mState (fst w2) \<noteq> CANCELLED then w3 else w2)"
    by (simp add: emit_def snd_and_then return_void_def w1_def w2_def w3_def split: option.splits)
  with s2 s3 show ?thesis by (auto intro: settled_inv)
qed

lemma dss_complete_inv:
  assumes sub: "\<And>k. keeps (settled k) sub" and inv: "dss_inv w"
  shows "dss_inv (snd (dss_complete sub t w))"
proof -
  from inv have nf: "mFused (fst w) \<noteq> NO_VALUE" by (simp add: dss_inv_def)
  consider (push) "mState (fst w) = HAS_REQUEST_NO_VALUE"
    | (store) "mState (fst w) = NO_REQUEST_NO_VALUE"
    | (skip) "mState (fst w) \<noteq> HAS_REQUEST_NO_VALUE" "mState (fst w) \<noteq> NO_REQUEST_NO_VALUE"
    by blast
  then show ?thesis
  proof cases
    case push
    with inv have "completes (snd w) = 0" "\<not> late_complete (snd w)"
      "Invoked (Queue Cancel) \<notin> set (snd w)"
      by (auto simp add: dss_inv_def)
    from dss_push_inv [OF sub nf this, of "Some t"] push nf show ?thesis
      by (simp add: dss_complete_def)
  next
    case store
    with inv show ?thesis
      by (auto simp add: dss_complete_def return_void_def dss_inv_def)
  next
    case skip
    with inv show ?thesis
      by (simp add: dss_complete_def return_void_def dss_inv_def)
  qed
qed

lemma dss_request_inv:
  assumes sub: "\<And>k. keeps (settled k) sub" and inv: "dss_inv w"
  shows "dss_inv (snd (dss_request sub n w))"
proof (cases "0 < n")
  case False
  with inv show ?thesis by (simp add: dss_request_def validRequest_def)
next
  case True
  from inv have nf: "mFused (fst w) \<noteq> NO_VALUE" by (simp add: dss_inv_def)
  consider (push) "mState (fst w) = NO_REQUEST_HAS_VALUE"
    | (mark) "mState (fst w) = NO_REQUEST_NO_VALUE"
    | (skip) "mState (fst w) \<noteq> NO_REQUEST_HAS_VALUE" "mState (fst w) \<noteq> NO_REQUEST_NO_VALUE"
    by blast
  then show ?thesis
  proof cases
    case push
    with inv have "completes (snd w) = 0" "\<not> late_complete (snd w)"
      "Invoked (Queue Cancel) \<notin> set (snd w)"
      by (auto simp add: dss_inv_def)
    from dss_push_inv [OF sub nf this, of "mValue (fst w)"] push True show ?thesis
      by (simp add: dss_request_def validRequest_def)
  next
    case mark
    with inv True show ?thesis
      by (auto simp add: dss_request_def validRequest_def return_void_def dss_inv_def)
  next
    case skip
    with inv True show ?thesis
      by (simp add: dss_request_def validRequest_def return_void_def dss_inv_def)
  qed
qed

lemma dss_inv_closing: "dss_inv w \<Longrightarrow> dss_inv (fst w, snd w @ [closing r])"
  by (simp add: dss_inv_def trace_simps closing_def split: sum.splits)

lemma dss_act_inv:
  assumes "dss_inv w" and "unfused_act fc a"
  shows "dss_inv (snd (run_act (dss_method fc) a w))"
proof (cases a)
  case (Act c k ns cs)
  with assms(2) have uf: "\<not> arms fc c" "unfused_script fc ns" "unfused_script fc cs"
    by simp_all
  have keeps: "\<And>k. keeps (settled k) (scripted (dss_method fc) ns cs)"
    unfolding keeps_def scripted_def
    by (auto simp add: dss_script_settled uf split: signal.splits)
  show ?thesis
  proof (cases "c = Queue Cancel")
    case True
    then show ?thesis using assms(1) unfolding Act run_act_scripted
      by (simp add: dss_method_def dss_queue_method_def dss_cancel_def dss_inv_def
          trace_simps closing_def)
  next
    case False
    then have inv0: "dss_inv (fst w, snd w @ [Invoked c])"
      using assms(1) by (simp add: dss_inv_def trace_simps)
    have "dss_inv (snd (dss_method fc (scripted (dss_method fc) ns cs) c
            (fst w, snd w @ [Invoked c])))"
    proof (cases c)
      case (Complete t)
      from dss_complete_inv [OF keeps inv0, of t] show ?thesis
        by (simp add: Complete dss_method_def)
    next
      case (Queue q)
      show ?thesis
      proof (cases q)
        case (Request n)
        from dss_request_inv [OF keeps inv0, of n] show ?thesis
          by (simp add: Queue Request dss_method_def dss_queue_method_def)
      qed (use inv0 False uf(1) in \<open>auto simp add: Queue dss_method_def dss_queue_method_def
            dss_requestFusion_def dss_poll_def dss_clear_def grants_def dss_inv_def\<close>)
    qed
    from dss_inv_closing [OF this] show ?thesis unfolding Act run_act_scripted by simp
  qed
qed

lemma dss_script_inv:
  "unfused_script fc as \<Longrightarrow> dss_inv w \<Longrightarrow> dss_inv (snd (run_script (dss_method fc) as w))"
proof (induction as arbitrary: w)
  case Nil
  then show ?case by simp
next
  case (Cons a as)
  from Cons.prems have "dss_inv (snd (run_act (dss_method fc) a w))"
    by (simp add: dss_act_inv)
  with Cons.IH Cons.prems(1) show ?case
    by (simp only: snd_run_script_Cons split: if_splits) simp
qed


subsection \<open>Claims on the scalar subscription\<close>

text \<open>
  Claim C6. Run any script of calls on a fresh scalar subscription, nested calls from
  inside the callbacks included: the value is handed over at most once, by a push
  (\<^verbatim>\<open>onNext\<close> from \<^verbatim>\<open>request\<close>) or by a pull (a \<^verbatim>\<open>poll()\<close> that returns it), never by
  both. Once it has been handed over, \<^verbatim>\<open>isEmpty()\<close> is \<open>true\<close> and \<^verbatim>\<open>size()\<close> is \<open>0\<close>,
  and whatever script \<open>bs\<close> follows, no further callback is made and no further
  \<^verbatim>\<open>poll()\<close> returns a value.
\<close>

theorem scalar_value_yielded_at_most_once:
  "yields (snd (snd (run_script (scalar_method fc) as (ScalarSubscription_new v, [])))) \<le> 1
   \<and> (yields (snd (snd (run_script (scalar_method fc) as (ScalarSubscription_new v, [])))) = 1
      \<longrightarrow>
       scalar_isEmpty (fst (snd (run_script (scalar_method fc) as (ScalarSubscription_new v, []))))
         = Some True
       \<and> scalar_size (fst (snd (run_script (scalar_method fc) as (ScalarSubscription_new v, []))))
         = 0
       \<and> yields (snd (snd (run_script (scalar_method fc) bs
            (snd (run_script (scalar_method fc) as (ScalarSubscription_new v, [])))))) = 1
       \<and> signals (snd (snd (run_script (scalar_method fc) bs
            (snd (run_script (scalar_method fc) as (ScalarSubscription_new v, []))))))
         = signals (snd (snd (run_script (scalar_method fc) as (ScalarSubscription_new v, [])))))"
proof -
  let ?w = "snd (run_script (scalar_method fc) as (ScalarSubscription_new v, []))"
  have "scalar_inv (ScalarSubscription_new v, [])"
    by (simp add: scalar_inv_def ScalarSubscription_new_def)
  then have inv: "scalar_inv ?w" by (rule scalar_script_inv)
  have "yields (snd ?w) = 1 \<Longrightarrow> delivered 1 (signals (snd ?w)) ?w"
    using inv by (simp add: scalar_inv_def delivered_def)
  then have "yields (snd ?w) = 1 \<Longrightarrow>
      delivered 1 (signals (snd ?w)) (snd (run_script (scalar_method fc) bs ?w))"
    by (rule scalar_script_delivered)
  with inv show ?thesis
    by (auto simp add: scalar_inv_def delivered_def scalar_isEmpty_def scalar_size_def truthy_def)
qed

theorem scalar_value_yielded_at_most_once_witness:
  "run_script (scalar_method FC_bits)
      [Act (Request 0) True [] [], Act (Request 2) False [Act Poll False [] []] []]
      (ScalarSubscription_new (7::nat), [])
     = (None, (\<lparr>scalar_mValue = 7, once = Some True\<rparr>,
         [Invoked (Request 0), Thrown (InvalidDemand 0), Invoked (Request 2),
          Signal (OnNext (Some 7)), Invoked Poll, Returned (RValue None), Signal OnComplete,
          Returned RVoid]))
   \<and> yields (snd (snd (run_script (scalar_method FC_bits)
      [Act (Request 0) True [] [], Act (Request 2) False [Act Poll False [] []] []]
      (ScalarSubscription_new (7::nat), [])))) = 1
   \<and> signals (snd (snd (run_script (scalar_method FC_bits)
      [Act (Request 2) False [] [], Act Poll False [] []]
      (snd (run_script (scalar_method FC_bits)
         [Act (Request 0) True [] [], Act (Request 2) False [Act Poll False [] []] []]
         (ScalarSubscription_new (7::nat), []))))))
      = [OnNext (Some 7), OnComplete]"
  using scalar_value_yielded_at_most_once
    [of FC_bits "[Act (Request 0) True [] [], Act (Request 2) False [Act Poll False [] []] []]"
        "7::nat" "[Act (Request 2) False [] [], Act Poll False [] []]"]
  by (simp add: scalar_unfold)

subsection \<open>Claims on the deferred scalar subscription\<close>

text \<open>
  Claim C1. On a fresh deferred scalar subscription, on which fusion was never
  negotiated, one \<^verbatim>\<open>complete(v)\<close> and one \<^verbatim>\<open>request(n)\<close> with \<open>n > 0\<close>, in either order
  and with no other call (so no \<^verbatim>\<open>cancel()\<close>) before or during the delivery, make the
  subscriber receive \<^verbatim>\<open>onNext(v)\<close> and then \<^verbatim>\<open>onComplete()\<close>, once each, and nothing else.
  The whole trace is given: the callbacks happen inside the second of the two calls.
\<close>

theorem dss_value_and_request_deliver_once:
  "0 < n \<Longrightarrow>
     run_script (dss_method fc)
        [Act (Complete v) k1 [] [], Act (Queue (Request n)) k2 [] []]
        (DeferrendScalarSubscription_new, [])
       = (None, (\<lparr>mValue = Some v, mState = HAS_REQUEST_HAS_VALUE, mFused = NOT_FUSED\<rparr>,
           [Invoked (Complete v), Returned RVoid, Invoked (Queue (Request n)),
            Signal (OnNext (Some v)), Signal OnComplete, Returned RVoid]))
     \<and> signals (snd (snd (run_script (dss_method fc)
        [Act (Complete v) k1 [] [], Act (Queue (Request n)) k2 [] []]
        (DeferrendScalarSubscription_new, [])))) = [OnNext (Some v), OnComplete]
     \<and> run_script (dss_method fc)
        [Act (Queue (Request n)) k2 [] [], Act (Complete v) k1 [] []]
        (DeferrendScalarSubscription_new, [])
       = (None, (\<lparr>mValue = None, mState = HAS_REQUEST_HAS_VALUE, mFused = NOT_FUSED\<rparr>,
           [Invoked (Queue (Request n)), Returned RVoid, Invoked (Complete v),
            Signal (OnNext (Some v)), Signal OnComplete, Returned RVoid]))
     \<and> signals (snd (snd (run_script (dss_method fc)
        [Act (Queue (Request n)) k2 [] [], Act (Complete v) k1 [] []]
        (DeferrendScalarSubscription_new, [])))) = [OnNext (Some v), OnComplete]"
  by (simp add: dss_unfold)

theorem dss_value_and_request_deliver_once_witness:
  "(0::int) < 3
   \<and> signals (snd (snd (run_script (dss_method FC_bits)
        [Act (Complete (7::nat)) False [] [], Act (Queue (Request 3)) False [] []]
        (DeferrendScalarSubscription_new, [])))) = [OnNext (Some 7), OnComplete]
   \<and> signals (snd (snd (run_script (dss_method FC_bits)
        [Act (Queue (Request 3)) False [] [], Act (Complete (7::nat)) False [] []]
        (DeferrendScalarSubscription_new, [])))) = [OnNext (Some 7), OnComplete]"
  using dss_value_and_request_deliver_once [of 3 FC_bits "7::nat" False False]
  by simp

text \<open>
  The ordinary track. As long as the fusion track is never armed (no \<^verbatim>\<open>requestFusion\<close>
  call of the execution is granted), over every script of \<^verbatim>\<open>complete\<close>, \<^verbatim>\<open>request\<close>,
  \<^verbatim>\<open>cancel\<close>, \<^verbatim>\<open>requestFusion\<close> and queue calls, calls made from inside \<^verbatim>\<open>onNext\<close> and
  \<^verbatim>\<open>onComplete\<close> included, \<^verbatim>\<open>onComplete\<close> is called at most once and never after a
  \<^verbatim>\<open>cancel()\<close> has been entered: the two push sites of this track read \<^verbatim>\<open>mState\<close> again
  after \<^verbatim>\<open>onNext\<close> and skip \<^verbatim>\<open>onComplete\<close> when it is cancelled.
\<close>

theorem dss_unfused_completes_once_never_after_cancel:
  "unfused_script fc as \<Longrightarrow>
     completes (snd (snd (run_script (dss_method fc) as (DeferrendScalarSubscription_new, []))))
       \<le> 1
     \<and> \<not> late_complete
           (snd (snd (run_script (dss_method fc) as (DeferrendScalarSubscription_new, []))))"
proof -
  assume uf: "unfused_script fc as"
  have "dss_inv (DeferrendScalarSubscription_new, [])"
    by (simp add: dss_inv_def DeferrendScalarSubscription_new_def completes_def)
  from dss_script_inv [OF uf this] show ?thesis
    by (simp add: dss_inv_def)
qed

theorem dss_unfused_completes_once_never_after_cancel_witness:
  "unfused_script FC_bits
     [Act (Queue (Request 1)) False [] [],
      Act (Queue (RequestFusion 1)) False [] [],
      Act (Complete (7::nat)) False [Act (Queue Cancel) False [] []] [],
      Act (Complete 8) False [] []]
   \<and> snd (snd (run_script (dss_method FC_bits)
     [Act (Queue (Request 1)) False [] [],
      Act (Queue (RequestFusion 1)) False [] [],
      Act (Complete (7::nat)) False [Act (Queue Cancel) False [] []] [],
      Act (Complete 8) False [] []]
     (DeferrendScalarSubscription_new, [])))
     = [Invoked (Queue (Request 1)), Returned RVoid,
        Invoked (Queue (RequestFusion 1)), Returned (RMode 0),
        Invoked (Complete 7), Signal (OnNext (Some 7)), Invoked (Queue Cancel), Returned RVoid,
        Returned RVoid, Invoked (Complete 8), Returned RVoid]
   \<and> completes (snd (snd (run_script (dss_method FC_bits)
     [Act (Queue (Request 1)) False [] [],
      Act (Queue (RequestFusion 1)) False [] [],
      Act (Complete (7::nat)) False [Act (Queue Cancel) False [] []] [],
      Act (Complete 8) False [] []]
     (DeferrendScalarSubscription_new, [])))) \<le> 1
   \<and> \<not> late_complete (snd (snd (run_script (dss_method FC_bits)
     [Act (Queue (Request 1)) False [] [],
      Act (Queue (RequestFusion 1)) False [] [],
      Act (Complete (7::nat)) False [Act (Queue Cancel) False [] []] [],
      Act (Complete 8) False [] []]
     (DeferrendScalarSubscription_new, []))))"
  using dss_unfused_completes_once_never_after_cancel
    [of FC_bits "[Act (Queue (Request 1)) False [] [],
      Act (Queue (RequestFusion 1)) False [] [],
      Act (Complete (7::nat)) False [Act (Queue Cancel) False [] []] [],
      Act (Complete 8) False [] []]"]
  by (simp add: dss_unfold FC_bits_def grants_def)

text \<open>
  Claim C2 says that over every sequence of \<^verbatim>\<open>complete\<close>, \<^verbatim>\<open>request\<close>, \<^verbatim>\<open>cancel\<close> and
  \<^verbatim>\<open>requestFusion\<close> calls \<^verbatim>\<open>onComplete\<close> is called at most once and never after
  \<^verbatim>\<open>cancel()\<close>, and that a \<^verbatim>\<open>cancel()\<close> made inside the \<^verbatim>\<open>onNext\<close> that \<^verbatim>\<open>complete\<close>
  triggers suppresses the \<^verbatim>\<open>onComplete\<close> that would follow. The fused branch of
  \<^verbatim>\<open>complete\<close> misses the check that the two other push sites make. On a fresh
  subscription, for every mode that \<^verbatim>\<open>requestFusion\<close> grants and every value \<open>v\<close>:
  \<^verbatim>\<open>requestFusion(mode)\<close>, then \<^verbatim>\<open>complete(v)\<close> whose \<^verbatim>\<open>onNext\<close> calls \<^verbatim>\<open>cancel()\<close>. The
  \<^verbatim>\<open>cancel()\<close> sets \<^verbatim>\<open>mState\<close> to cancelled and \<^verbatim>\<open>mFused\<close> to complete, and \<^verbatim>\<open>complete\<close>
  goes on to call \<^verbatim>\<open>onComplete\<close> all the same: the completion comes after the cancel.
\<close>

theorem dss_fused_complete_ignores_cancel_in_onNext:
  "mode AND ASYNC fc \<noteq> 0 \<and> mode AND BOUNDARY fc = 0 \<Longrightarrow>
   run_script (dss_method fc)
     [Act (Queue (RequestFusion mode)) k1 [] [],
      Act (Complete v) k2 [Act (Queue Cancel) k3 [] []] []]
     (DeferrendScalarSubscription_new, [])
   = (None, (\<lparr>mValue = Some v, mState = CANCELLED, mFused = COMPLETE\<rparr>,
       [Invoked (Queue (RequestFusion mode)), Returned (RMode (ASYNC fc)),
        Invoked (Complete v), Signal (OnNext (Some v)),
        Invoked (Queue Cancel), Returned RVoid,
        Signal OnComplete, Returned RVoid]))
   \<and> late_complete (snd (snd (run_script (dss_method fc)
     [Act (Queue (RequestFusion mode)) k1 [] [],
      Act (Complete v) k2 [Act (Queue Cancel) k3 [] []] []]
     (DeferrendScalarSubscription_new, []))))"
  by (simp add: dss_unfold)

theorem dss_fused_complete_ignores_cancel_in_onNext_witness:
  "(2 :: 32 word) AND ASYNC FC_bits \<noteq> 0 \<and> (2 :: 32 word) AND BOUNDARY FC_bits = 0
   \<and> snd (snd (run_script (dss_method FC_bits)
     [Act (Queue (RequestFusion 2)) False [] [],
      Act (Complete (7::nat)) False [Act (Queue Cancel) False [] []] []]
     (DeferrendScalarSubscription_new, [])))
     = [Invoked (Queue (RequestFusion 2)), Returned (RMode 2),
        Invoked (Complete 7), Signal (OnNext (Some 7)),
        Invoked (Queue Cancel), Returned RVoid,
        Signal OnComplete, Returned RVoid]
   \<and> late_complete (snd (snd (run_script (dss_method FC_bits)
     [Act (Queue (RequestFusion 2)) False [] [],
      Act (Complete (7::nat)) False [Act (Queue Cancel) False [] []] []]
     (DeferrendScalarSubscription_new, []))))"
  using dss_fused_complete_ignores_cancel_in_onNext [of 2 FC_bits False "7::nat" False False]
  by (simp add: FC_bits_def)

text \<open>
  Claim C3 says that with async fusion armed before any value arrives no push callback
  is delivered. The fused branch of \<^verbatim>\<open>complete\<close> calls \<^verbatim>\<open>mActual.onNext(t)\<close> and
  \<^verbatim>\<open>mActual.onComplete()\<close>: after a granted \<^verbatim>\<open>requestFusion\<close>, \<^verbatim>\<open>complete(7)\<close> pushes both.
\<close>

theorem dss_fused_complete_pushes:
  "signals (snd (snd (run_script (dss_method FC_bits)
     [Act (Queue (RequestFusion 2)) False [] [], Act (Complete (7::nat)) False [] []]
     (DeferrendScalarSubscription_new, [])))) = [OnNext (Some 7), OnComplete]"
  by (simp add: dss_unfold FC_bits_def)

text \<open>
  Claim C3, amended. When async fusion is armed on a fresh deferred scalar subscription
  before any value arrives, every \<^verbatim>\<open>poll()\<close> before \<^verbatim>\<open>complete(v)\<close> returns the empty
  marker; \<^verbatim>\<open>complete(v)\<close> stores \<open>v\<close> and itself pushes \<^verbatim>\<open>onNext(v)\<close> and then
  \<^verbatim>\<open>onComplete()\<close> to the subscriber; after it the first \<^verbatim>\<open>poll()\<close> returns \<open>v\<close> and every
  later \<^verbatim>\<open>poll()\<close> returns the empty marker. The polls make no callback. The whole trace
  is given, for \<open>i\<close> polls before \<^verbatim>\<open>complete\<close> and \<open>j + 1\<close> after it.
\<close>

theorem dss_fused_poll_trace:
  "mode AND ASYNC fc \<noteq> 0 \<and> mode AND BOUNDARY fc = 0 \<Longrightarrow>
   run_script (dss_method fc)
     ([Act (Queue (RequestFusion mode)) k1 [] []] @ replicate i (Act (Queue Poll) k2 [] [])
       @ [Act (Complete v) k3 [] []] @ replicate (Suc j) (Act (Queue Poll) k4 [] []))
     (DeferrendScalarSubscription_new, [])
   = (None, (\<lparr>mValue = Some v, mState = NO_REQUEST_NO_VALUE, mFused = COMPLETE\<rparr>,
        [Invoked (Queue (RequestFusion mode)), Returned (RMode (ASYNC fc))]
        @ concat (replicate i [Invoked (Queue Poll), Returned (RValue None)])
        @ [Invoked (Complete v), Signal (OnNext (Some v)), Signal OnComplete, Returned RVoid,
           Invoked (Queue Poll), Returned (RValue (Some v))]
        @ concat (replicate j [Invoked (Queue Poll), Returned (RValue None)])))"
  apply (simp only: run_script_append)
  apply (simp add: polls_empty dss_unfold del: replicate.simps)
  apply (simp add: polls_empty dss_unfold)
  done

theorem dss_fused_poll_trace_witness:
  "(2 :: 32 word) AND ASYNC FC_bits \<noteq> 0 \<and> (2 :: 32 word) AND BOUNDARY FC_bits = 0
   \<and> snd (snd (run_script (dss_method FC_bits)
       [Act (Queue (RequestFusion 2)) False [] [], Act (Queue Poll) False [] [],
        Act (Complete (7::nat)) False [] [], Act (Queue Poll) False [] [],
        Act (Queue Poll) False [] []]
       (DeferrendScalarSubscription_new, [])))
     = [Invoked (Queue (RequestFusion 2)), Returned (RMode 2),
        Invoked (Queue Poll), Returned (RValue None),
        Invoked (Complete 7), Signal (OnNext (Some 7)), Signal OnComplete, Returned RVoid,
        Invoked (Queue Poll), Returned (RValue (Some 7)),
        Invoked (Queue Poll), Returned (RValue None)]"
  using dss_fused_poll_trace [of 2 FC_bits False 1 False "7::nat" False 1 False]
  by (simp add: FC_bits_def)

text \<open>
  Claim C10 says that when \<^verbatim>\<open>complete(v)\<close> comes first and async fusion is granted
  afterwards, no push callback ever delivers \<open>v\<close>. \<^verbatim>\<open>request\<close> never looks at the
  fusion track: the value waits in the no-request/has-value state, and \<^verbatim>\<open>request(1)\<close>
  pushes it.
\<close>

theorem dss_late_fusion_request_pushes:
  "signals (snd (snd (run_script (dss_method FC_bits)
     [Act (Complete (7::nat)) False [] [], Act (Queue (RequestFusion 2)) False [] [],
      Act (Queue (Request 1)) False [] []]
     (DeferrendScalarSubscription_new, [])))) = [OnNext (Some 7), OnComplete]"
  by (simp add: dss_unfold FC_bits_def)

text \<open>
  Claim C10, amended. When \<^verbatim>\<open>complete(v)\<close> is called first on a fresh deferred scalar
  subscription and \<^verbatim>\<open>requestFusion\<close> is granted afterwards, the stored value is not
  observable through the queue: every following \<^verbatim>\<open>poll()\<close> returns the empty marker and
  \<^verbatim>\<open>isEmpty()\<close> returns \<open>true\<close>, although the instance still holds \<open>v\<close>. It is not lost:
  a following \<^verbatim>\<open>request(n)\<close> with \<open>n > 0\<close> pushes \<^verbatim>\<open>onNext(v)\<close> and then \<^verbatim>\<open>onComplete()\<close>.
  The whole trace is given, for \<open>i\<close> polls.
\<close>

theorem dss_late_fusion_trace:
  "mode AND ASYNC fc \<noteq> 0 \<and> mode AND BOUNDARY fc = 0 \<Longrightarrow> 0 < n \<Longrightarrow>
   run_script (dss_method fc)
     ([Act (Complete v) k1 [] [], Act (Queue (RequestFusion mode)) k2 [] []]
       @ replicate i (Act (Queue Poll) k3 [] [])
       @ [Act (Queue IsEmpty) k4 [] [], Act (Queue (Request n)) k5 [] []])
     (DeferrendScalarSubscription_new, [])
   = (None, (\<lparr>mValue = Some v, mState = HAS_REQUEST_HAS_VALUE, mFused = NO_VALUE\<rparr>,
        [Invoked (Complete v), Returned RVoid,
         Invoked (Queue (RequestFusion mode)), Returned (RMode (ASYNC fc))]
        @ concat (replicate i [Invoked (Queue Poll), Returned (RValue None)])
        @ [Invoked (Queue IsEmpty), Returned (RBool (Some True)),
           Invoked (Queue (Request n)), Signal (OnNext (Some v)), Signal OnComplete,
           Returned RVoid]))"
  apply (simp only: run_script_append)
  apply (simp add: polls_empty dss_unfold del: replicate.simps)
  done

theorem dss_late_fusion_trace_witness:
  "(2 :: 32 word) AND ASYNC FC_bits \<noteq> 0 \<and> (2 :: 32 word) AND BOUNDARY FC_bits = 0
   \<and> (0::int) < 1
   \<and> snd (snd (run_script (dss_method FC_bits)
       [Act (Complete (7::nat)) False [] [], Act (Queue (RequestFusion 2)) False [] [],
        Act (Queue Poll) False [] [], Act (Queue Poll) False [] [],
        Act (Queue IsEmpty) False [] [], Act (Queue (Request 1)) False [] []]
       (DeferrendScalarSubscription_new, [])))
     = [Invoked (Complete 7), Returned RVoid,
        Invoked (Queue (RequestFusion 2)), Returned (RMode 2),
        Invoked (Queue Poll), Returned (RValue None),
        Invoked (Queue Poll), Returned (RValue None),
        Invoked (Queue IsEmpty), Returned (RBool (Some True)),
        Invoked (Queue (Request 1)), Signal (OnNext (Some 7)), Signal OnComplete,
        Returned RVoid]"
  using dss_late_fusion_trace [of 2 FC_bits 1 "7::nat" False False 2 False False False]
  by (simp add: FC_bits_def numeral_2_eq_2)

end
